theory Spec2Isabelle
  imports Complex_Main "HOL-Library.AList" "HOL-Library.Char_ord" "HOL-Library.List_Lexorder"
begin

section \<open>Python primitives used by the report scripts\<close>

text \<open>
  The four scripts under \<^verbatim>\<open>.github/scripts\<close> turn the JSON output of
  \<^verbatim>\<open>opa test\<close> into JUnit and Cobertura XML. JSON numbers that Python reads as
  \<^verbatim>\<open>float\<close> are modelled by exact rationals, integers by \<open>int\<close>/\<open>nat\<close>,
  \<^verbatim>\<open>str\<close> by \<open>string\<close>, a \<^verbatim>\<open>dict\<close> by an association list in insertion order
  (\<open>AList.update\<close> overwrites in place or appends, as a Python dict does).
\<close>

datatype py_error = KeyError | ZeroDivisionError | FileNotFoundError | JSONDecodeError

text \<open>\<^verbatim>\<open>s.split(c)\<close> for a one-character separator: never returns the empty list.\<close>

fun split :: "char \<Rightarrow> string \<Rightarrow> string list" where
  "split c [] = [[]]"
| "split c (x # xs) =
     (if x = c then [] # split c xs
      else (case split c xs of w # ws \<Rightarrow> (x # w) # ws | [] \<Rightarrow> [[x]]))"

text \<open>\<^verbatim>\<open>sep.join(parts)\<close>.\<close>

fun join :: "string \<Rightarrow> string list \<Rightarrow> string" where
  "join sep [] = []"
| "join sep [p] = p"
| "join sep (p # q # ps) = p @ sep @ join sep (q # ps)"

text \<open>\<^verbatim>\<open>s.endswith(suf)\<close>.\<close>

definition endswith :: "string \<Rightarrow> string \<Rightarrow> bool" where
  "endswith s suf \<longleftrightarrow> length suf \<le> length s \<and> drop (length s - length suf) s = suf"

text \<open>\<^verbatim>\<open>s.replace(old, new)\<close> for a non-empty \<open>old\<close>: the first argument counts the
  characters of a matched occurrence still to be skipped.\<close>

fun replace_aux :: "nat \<Rightarrow> string \<Rightarrow> string \<Rightarrow> string \<Rightarrow> string" where
  "replace_aux k old new [] = []"
| "replace_aux (Suc k) old new (x # xs) = replace_aux k old new xs"
| "replace_aux 0 old new (x # xs) =
     (if take (length old) (x # xs) = old then new @ replace_aux (length old - 1) old new xs
      else x # replace_aux 0 old new xs)"

definition replace :: "string \<Rightarrow> string \<Rightarrow> string \<Rightarrow> string" where
  "replace s old new = replace_aux 0 old new s"

text \<open>\<^verbatim>\<open>str(n)\<close> for an integer.\<close>

definition digit_char :: "nat \<Rightarrow> char" where
  "digit_char d = char_of (48 + d)"

function str_nat :: "nat \<Rightarrow> string" where
  "str_nat n = (if n < 10 then [digit_char n] else str_nat (n div 10) @ [digit_char (n mod 10)])"
  by pat_completeness auto
termination
  by (relation "measure id") auto

declare str_nat.simps [simp del]

definition str_int :: "int \<Rightarrow> string" where
  "str_int i = (if i < 0 then CHR ''-'' # str_nat (nat (- i)) else str_nat (nat i))"

text \<open>
  \<^verbatim>\<open>round(x, ndigits)\<close>: Python rounds to the nearest multiple of \<open>10\<^sup>-\<^sup>n\<close> and, when
  two multiples are equally close, to the even one. On rationals:
\<close>

definition round_half_even :: "rat \<Rightarrow> int" where
  "round_half_even x =
     (let f = \<lfloor>x\<rfloor>; r = x - of_int f
      in if r < 1 / 2 then f
         else if 1 / 2 < r then f + 1
         else if even f then f else f + 1)"

definition py_round :: "rat \<Rightarrow> nat \<Rightarrow> rat" where
  "py_round x ndigits = of_int (round_half_even (x * 10 ^ ndigits)) / 10 ^ ndigits"

text \<open>
  What the scripts take from their environment: the clock, the host name, the absolute
  path of a directory, and Python's rendering of a float (\<^verbatim>\<open>str(x)\<close>, \<^verbatim>\<open>f"{x}"\<close>).
\<close>

record env =
  now_iso :: string
  now_timestamp :: int
  hostname :: string
  abspath :: "string \<Rightarrow> string"
  str_float :: "rat \<Rightarrow> string"

text \<open>\<^verbatim>\<open>xml.etree.ElementTree.Element\<close>: tag, attributes in the order they were set,
  text, children.\<close>

datatype xml = Element (xtag: string) (xattrib: "(string \<times> string) list") (xtext: string)
  (xchildren: "xml list")

definition has_child :: "string \<Rightarrow> xml \<Rightarrow> bool" where
  "has_child t e \<longleftrightarrow> (\<exists>c \<in> set (xchildren e). xtag c = t)"


section \<open>Test records and their grouping by policy\<close>

text \<open>
  One entry of \<^verbatim>\<open>opa test --format=json\<close>. \<^verbatim>\<open>package\<close>, \<^verbatim>\<open>name\<close>, \<^verbatim>\<open>duration\<close> and
  \<^verbatim>\<open>location\<close> are read with \<^verbatim>\<open>test[...]\<close>; \<^verbatim>\<open>fail\<close>, \<^verbatim>\<open>error\<close> and \<^verbatim>\<open>skip\<close> with
  \<^verbatim>\<open>test.get(...)\<close>, so they are optional. An error is a JSON object, a skip marker a
  boolean or a JSON object.
\<close>

datatype skip_value = SkipBool bool | SkipDict "(string \<times> string) list"

record test =
  t_package :: string
  t_name :: string
  t_duration :: int
  t_fail :: "bool option"
  t_error :: "(string \<times> string) list option"
  t_skip :: "skip_value option"
  t_file :: string
  t_row :: int

text \<open>Python truthiness of \<^verbatim>\<open>test.get("fail", False)\<close>, \<^verbatim>\<open>test.get("error")\<close>,
  \<^verbatim>\<open>test.get("skip")\<close>.\<close>

definition is_fail :: "test \<Rightarrow> bool" where
  "is_fail t \<longleftrightarrow> t_fail t = Some True"

definition is_error :: "test \<Rightarrow> bool" where
  "is_error t \<longleftrightarrow> (case t_error t of None \<Rightarrow> False | Some d \<Rightarrow> d \<noteq> [])"

definition is_skip :: "test \<Rightarrow> bool" where
  "is_skip t \<longleftrightarrow>
     (case t_skip t of None \<Rightarrow> False | Some (SkipBool b) \<Rightarrow> b | Some (SkipDict d) \<Rightarrow> d \<noteq> [])"

text \<open>
  \<^verbatim>\<open>opa_test_to_junit.py\<close> lines 42-49 and \<^verbatim>\<open>opa_combined_junit.py\<close> lines 47-54:
  the policy name of a package. \<open>strip_data\<close> is the first \<^verbatim>\<open>if\<close>
  (\<^verbatim>\<open>package_parts[0] == "data" and len(package_parts) > 1\<close>), \<open>strip_test\<close> the second
  (\<^verbatim>\<open>package_parts and package_parts[-1].endswith("_test")\<close>, then \<^verbatim>\<open>[:-5]\<close>).
\<close>

fun strip_data :: "string list \<Rightarrow> string list" where
  "strip_data (p # q # ps) = (if p = ''data'' then q # ps else p # q # ps)"
| "strip_data ps = ps"

definition strip_test :: "string list \<Rightarrow> string list" where
  "strip_test package_parts =
     (if package_parts \<noteq> [] \<and> endswith (last package_parts) ''_test''
      then butlast package_parts @ [take (length (last package_parts) - 5) (last package_parts)]
      else package_parts)"

definition policy_name :: "string \<Rightarrow> string" where
  "policy_name package = join ''.'' (strip_test (strip_data (split CHR ''.'' package)))"

text \<open>A value of the \<^verbatim>\<open>defaultdict\<close> of test groups, and its default.\<close>

record test_group =
  tg_tests :: "test list"
  tg_package :: "string option"
  tg_duration :: int
  tg_failures :: nat
  tg_errors :: nat
  tg_skipped :: nat

definition new_test_group :: test_group where
  "new_test_group = \<lparr>tg_tests = [], tg_package = None, tg_duration = 0, tg_failures = 0,
     tg_errors = 0, tg_skipped = 0\<rparr>"

text \<open>\<^verbatim>\<open>d[k]\<close> on a \<^verbatim>\<open>defaultdict\<close> followed by an in-place change of the value.\<close>

definition upd_default :: "'v \<Rightarrow> 'k \<Rightarrow> ('v \<Rightarrow> 'v) \<Rightarrow> ('k \<times> 'v) list \<Rightarrow> ('k \<times> 'v) list" where
  "upd_default dflt k f d =
     AList.update k (f (case map_of d k of None \<Rightarrow> dflt | Some v \<Rightarrow> v)) d"

text \<open>The body of the loop \<^verbatim>\<open>for test in test_data\<close> (lines 40-61, resp. 45-66).\<close>

definition add_test :: "test \<Rightarrow> test_group \<Rightarrow> test_group" where
  "add_test t g =
     g\<lparr>tg_tests := tg_tests g @ [t],
           tg_package := Some (policy_name (t_package t)),
           tg_duration := tg_duration g + t_duration t,
           tg_failures := tg_failures g + (if is_fail t then 1 else 0),
           tg_errors := tg_errors g + (if is_error t then 1 else 0),
           tg_skipped := tg_skipped g + (if is_skip t then 1 else 0)\<rparr>"

fun group_tests_from :: "(string \<times> test_group) list \<Rightarrow> test list \<Rightarrow> (string \<times> test_group) list"
  where
  "group_tests_from policy_groups [] = policy_groups"
| "group_tests_from policy_groups (t # ts) =
     group_tests_from
       (upd_default new_test_group (policy_name (t_package t)) (add_test t) policy_groups) ts"

definition group_tests :: "test list \<Rightarrow> (string \<times> test_group) list" where
  "group_tests test_data = group_tests_from [] test_data"

text \<open>\<^verbatim>\<open>sum(g[...] for g in policy_groups.values())\<close>.\<close>

definition sum_groups :: "('g \<Rightarrow> 'n::comm_monoid_add) \<Rightarrow> ('k \<times> 'g) list \<Rightarrow> 'n" where
  "sum_groups f policy_groups = sum_list (map (\<lambda>(k, g). f g) policy_groups)"

section \<open>The test report builders\<close>

text \<open>The status marks are string constants of the scripts, given here by their UTF-8 bytes
  (\<^verbatim>\<open>opa_combined_junit.py\<close> lines 146-152 and 315, \<^verbatim>\<open>opa_coverage_to_junit.py\<close>
  line 162).\<close>

definition comb_mark_pass :: string where
  "comb_mark_pass = [CHR 0xE2, CHR 0x80, CHR 0x9A, CHR 0xC3, CHR 0xBA, CHR 0xC3, CHR 0x96]"

definition comb_mark_fail :: string where
  "comb_mark_fail = [CHR 0xE2, CHR 0x80, CHR 0x9A, CHR 0xC3, CHR 0xB9, CHR 0xC3, CHR 0xA5]"



definition cov_mark_pass :: string where
  "cov_mark_pass = [CHR 0xE2, CHR 0x9C, CHR 0x85]"

definition cov_mark_fail :: string where
  "cov_mark_fail = [CHR 0xE2, CHR 0x9D, CHR 0x8C]"

definition newline :: string where
  "newline = [CHR 0x0A]"


definition round_percentage :: "rat \<Rightarrow> rat" where
  "round_percentage v = py_round v 2"



subsection \<open>\<^verbatim>\<open>opa_test_to_junit.py\<close>: \<^verbatim>\<open>create_test_report\<close>\<close>




subsection \<open>\<^verbatim>\<open>opa_combined_junit.py\<close>: \<^verbatim>\<open>create_test_summary_and_suites\<close>\<close>




section \<open>Coverage data and its grouping by policy area\<close>

text \<open>
  The output of \<^verbatim>\<open>opa test --coverage --format=json\<close>: an object with \<^verbatim>\<open>coverage\<close>,
  \<^verbatim>\<open>covered_lines\<close>, \<^verbatim>\<open>not_covered_lines\<close> and \<^verbatim>\<open>files\<close>, a dict from file path to
  the record of the file. In a file record every key may be absent (\<open>None\<close>): the
  scripts read \<^verbatim>\<open>file_data["coverage"]\<close>, which raises \<^verbatim>\<open>KeyError\<close> then, and test the
  others with \<^verbatim>\<open>in\<close> or read them with \<^verbatim>\<open>get\<close>. A region carries the rows
  \<^verbatim>\<open>region["start"]["row"]\<close> and \<^verbatim>\<open>region["end"]["row"]\<close>.
\<close>

record region =
  r_start_row :: "int option"
  r_end_row :: "int option"

record file_data =
  fd_coverage :: "rat option"
  fd_covered_lines :: "int option"
  fd_not_covered_lines :: "int option"
  fd_covered :: "region list option"
  fd_not_covered :: "region list option"

record coverage_data =
  cd_coverage :: rat
  cd_covered_lines :: int
  cd_not_covered_lines :: int
  cd_files :: "(string \<times> file_data) list"

text \<open>\<^verbatim>\<open>f.endswith("_test.rego")\<close>, and the list
  \<^verbatim>\<open>[f for f in coverage_data["files"] if not f.endswith("_test.rego")]\<close>.\<close>

definition is_test_file :: "string \<Rightarrow> bool" where
  "is_test_file f \<longleftrightarrow> endswith f ''_test.rego''"

definition policy_files :: "coverage_data \<Rightarrow> string list" where
  "policy_files coverage_data = filter (\<lambda>f. \<not> is_test_file f) (map fst (cd_files coverage_data))"

text \<open>\<^verbatim>\<open>coverage_data["files"][file_path]\<close>.\<close>

definition files_get :: "coverage_data \<Rightarrow> string \<Rightarrow> py_error + file_data" where
  "files_get coverage_data file_path =
     (case map_of (cd_files coverage_data) file_path of
        None \<Rightarrow> Inl KeyError
      | Some file_data \<Rightarrow> Inr file_data)"

text \<open>\<^verbatim>\<open>coverage_data["files"][file_path]["coverage"]\<close>.\<close>

definition file_coverage_of :: "coverage_data \<Rightarrow> string \<Rightarrow> py_error + rat" where
  "file_coverage_of coverage_data file_path =
     (case files_get coverage_data file_path of
        Inl err \<Rightarrow> Inl err
      | Inr file_data \<Rightarrow>
          (case fd_coverage file_data of None \<Rightarrow> Inl KeyError | Some c \<Rightarrow> Inr c))"

text \<open>The policy area of a file path (\<^verbatim>\<open>opa_coverage_to_junit.py\<close> lines 44-48,
  \<^verbatim>\<open>opa_combined_junit.py\<close> lines 188-192); \<^verbatim>\<open>parts[1:-1]\<close> is \<open>butlast (tl parts)\<close>.\<close>

definition policy_area :: "string \<Rightarrow> string" where
  "policy_area file_path =
     (let parts = split CHR ''/'' file_path
      in if length parts \<ge> 3 \<and> hd parts = ''policy'' then join ''.'' (butlast (tl parts))
         else ''other'')"

text \<open>A value of the \<^verbatim>\<open>defaultdict\<close> of coverage groups, and its default.\<close>

record cov_group =
  cg_files :: "string list"
  cg_total_coverage :: rat
  cg_file_count :: nat
  cg_total_lines :: int
  cg_covered_lines :: int
  cg_not_covered_lines :: int

definition new_cov_group :: cov_group where
  "new_cov_group = \<lparr>cg_files = [], cg_total_coverage = 0, cg_file_count = 0, cg_total_lines = 0,
     cg_covered_lines = 0, cg_not_covered_lines = 0\<rparr>"

text \<open>
  The line counts a file adds to its group, as (covered, not covered), when it adds any.
  \<^verbatim>\<open>opa_coverage_to_junit.py\<close> (lines 56-58, 165-167) asks for \<^verbatim>\<open>covered_lines\<close> and
  defaults \<^verbatim>\<open>not_covered_lines\<close> to 0; \<^verbatim>\<open>opa_combined_junit.py\<close> (lines 200, 283, 318)
  asks for both keys.
\<close>

definition cov_line_counts :: "file_data \<Rightarrow> (int \<times> int) option" where
  "cov_line_counts file_data =
     (case fd_covered_lines file_data of
        None \<Rightarrow> None
      | Some covered \<Rightarrow>
          Some (covered, case fd_not_covered_lines file_data of None \<Rightarrow> 0 | Some n \<Rightarrow> n))"

definition comb_line_counts :: "file_data \<Rightarrow> (int \<times> int) option" where
  "comb_line_counts file_data =
     (case (fd_covered_lines file_data, fd_not_covered_lines file_data) of
        (Some covered, Some not_covered) \<Rightarrow> Some (covered, not_covered)
      | _ \<Rightarrow> None)"

text \<open>The body of the loop \<^verbatim>\<open>for file_path in policy_files\<close>, once the file record and its
  coverage have been read, and the loop itself (lines 43-63, resp. 187-207).\<close>

definition add_file ::
  "(file_data \<Rightarrow> (int \<times> int) option) \<Rightarrow> string \<Rightarrow> file_data \<Rightarrow> rat \<Rightarrow> cov_group \<Rightarrow> cov_group"
  where
  "add_file line_counts file_path file_data c g =
     (let g1 = g\<lparr>cg_files := cg_files g @ [file_path],
                 cg_total_coverage := cg_total_coverage g + c,
                 cg_file_count := cg_file_count g + 1\<rparr>
      in case line_counts file_data of
           None \<Rightarrow> g1
         | Some (covered, not_covered) \<Rightarrow>
             g1\<lparr>cg_total_lines := cg_total_lines g1 + (covered + not_covered),
                cg_covered_lines := cg_covered_lines g1 + covered,
                cg_not_covered_lines := cg_not_covered_lines g1 + not_covered\<rparr>)"

fun group_files_from ::
  "(file_data \<Rightarrow> (int \<times> int) option) \<Rightarrow> coverage_data \<Rightarrow> (string \<times> cov_group) list \<Rightarrow>
   string list \<Rightarrow> py_error + (string \<times> cov_group) list" where
  "group_files_from line_counts coverage_data policy_groups [] = Inr policy_groups"
| "group_files_from line_counts coverage_data policy_groups (file_path # rest) =
     (case files_get coverage_data file_path of
        Inl err \<Rightarrow> Inl err
      | Inr file_data \<Rightarrow>
          (case fd_coverage file_data of
             None \<Rightarrow> Inl KeyError
           | Some c \<Rightarrow>
               group_files_from line_counts coverage_data
                 (upd_default new_cov_group (policy_area file_path)
                    (add_file line_counts file_path file_data c) policy_groups)
                 rest))"

definition group_files ::
  "(file_data \<Rightarrow> (int \<times> int) option) \<Rightarrow> coverage_data \<Rightarrow> py_error + (string \<times> cov_group) list"
  where
  "group_files line_counts coverage_data =
     group_files_from line_counts coverage_data [] (policy_files coverage_data)"

text \<open>\<^verbatim>\<open>policy_groups[policy_area]\<close> on the \<^verbatim>\<open>defaultdict\<close> of coverage groups.\<close>

definition cov_group_at :: "(string \<times> cov_group) list \<Rightarrow> string \<Rightarrow> cov_group" where
  "cov_group_at policy_groups k =
     (case map_of policy_groups k of None \<Rightarrow> new_cov_group | Some g \<Rightarrow> g)"

text \<open>\<^verbatim>\<open>_round_percentage(group["total_coverage"] / group["file_count"])\<close>
  (\<^verbatim>\<open>opa_coverage_to_junit.py\<close> line 146, \<^verbatim>\<open>opa_combined_junit.py\<close> line 257).\<close>

definition avg_coverage :: "cov_group \<Rightarrow> py_error + rat" where
  "avg_coverage g =
     (if cg_file_count g = 0 then Inl ZeroDivisionError
      else Inr (round_percentage (cg_total_coverage g / of_nat (cg_file_count g))))"

text \<open>A loop whose body may raise: the first error ends it.\<close>

fun map_err :: "('a \<Rightarrow> 'e + 'b) \<Rightarrow> 'a list \<Rightarrow> 'e + 'b list" where
  "map_err f [] = Inr []"
| "map_err f (x # xs) =
     (case f x of
        Inl err \<Rightarrow> Inl err
      | Inr y \<Rightarrow> (case map_err f xs of Inl err \<Rightarrow> Inl err | Inr ys \<Rightarrow> Inr (y # ys)))"

text \<open>\<^verbatim>\<open>region.get("start", {}).get("row", "?")\<close> inside an f-string.\<close>

definition row_str :: "int option \<Rightarrow> string" where
  "row_str r = (case r of None \<Rightarrow> ''?'' | Some n \<Rightarrow> str_int n)"

text \<open>The five \<^verbatim>\<open>property\<close> elements both coverage suites carry.\<close>

definition coverage_properties :: "env \<Rightarrow> coverage_data \<Rightarrow> rat \<Rightarrow> xml" where
  "coverage_properties e coverage_data coverage_threshold =
     (let overall_coverage = round_percentage (cd_coverage coverage_data);
          total_lines = cd_covered_lines coverage_data + cd_not_covered_lines coverage_data
      in Element ''properties'' [] ''''
           [Element ''property''
              [(''name'', ''coverage_threshold''),
               (''value'', str_float e coverage_threshold @ ''%'')] '''' [],
            Element ''property''
              [(''name'', ''overall_coverage''),
               (''value'', str_float e overall_coverage @ ''%'')] '''' [],
            Element ''property''
              [(''name'', ''total_lines''), (''value'', str_int total_lines)] '''' [],
            Element ''property''
              [(''name'', ''covered_lines''),
               (''value'', str_int (cd_covered_lines coverage_data))] '''' [],
            Element ''property''
              [(''name'', ''uncovered_lines''),
               (''value'', str_int (cd_not_covered_lines coverage_data))] '''' []])"

section \<open>The coverage report builders\<close>

subsection \<open>\<^verbatim>\<open>opa_coverage_to_junit.py\<close>: \<^verbatim>\<open>create_coverage_report\<close>\<close>

text \<open>Lines 181-187: the line of one uncovered region.\<close>

definition cov_region_line :: "region \<Rightarrow> string" where
  "cov_region_line r =
     (if r_start_row r = r_end_row r then ''     - Line '' @ row_str (r_start_row r)
      else ''     - Lines '' @ row_str (r_start_row r) @ ''-'' @ row_str (r_end_row r))"

text \<open>Lines 157-189: the lines of one file.\<close>

definition cov_file_lines ::
  "env \<Rightarrow> coverage_data \<Rightarrow> rat \<Rightarrow> string \<Rightarrow> py_error + string list" where
  "cov_file_lines e coverage_data coverage_threshold file_path =
     (case files_get coverage_data file_path of
        Inl err \<Rightarrow> Inl err
      | Inr file_data \<Rightarrow>
          (case fd_coverage file_data of
             None \<Rightarrow> Inl KeyError
           | Some c \<Rightarrow>
               (let file_coverage = round_percentage c;
                    filename = last (split CHR ''/'' file_path);
                    status = (if file_coverage = 100 then cov_mark_pass else cov_mark_fail)
                in case cov_line_counts file_data of
                     Some (covered, not_covered) \<Rightarrow>
                       Inr ((''  '' @ status @ '' '' @ filename @ '': '' @ str_float e file_coverage
                              @ ''% ('' @ str_int covered @ ''/'' @ str_int (covered + not_covered)
                              @ '' lines)'')
                            # (case fd_not_covered file_data of
                                 Some regions \<Rightarrow>
                                   (if file_coverage < coverage_threshold \<and> regions \<noteq> []
                                    then ''     Uncovered regions:'' # map cov_region_line regions
                                    else [])
                               | None \<Rightarrow> []))
                   | None \<Rightarrow>
                       Inr [''  '' @ status @ '' '' @ filename @ '': '' @ str_float e file_coverage
                              @ ''%''])))"

text \<open>Lines 144-189: the lines of one policy area.\<close>

definition cov_policy_lines ::
  "env \<Rightarrow> coverage_data \<Rightarrow> rat \<Rightarrow> string \<Rightarrow> cov_group \<Rightarrow> py_error + string list" where
  "cov_policy_lines e coverage_data coverage_threshold area g =
     (case avg_coverage g of
        Inl err \<Rightarrow> Inl err
      | Inr avg \<Rightarrow>
          (case map_err (cov_file_lines e coverage_data coverage_threshold) (sort (cg_files g)) of
             Inl err \<Rightarrow> Inl err
           | Inr file_lines \<Rightarrow>
               Inr ((if cg_total_lines g > 0
                     then newline @ area @ '': '' @ str_float e avg @ ''% (''
                            @ str_int (cg_covered_lines g) @ ''/'' @ str_int (cg_total_lines g)
                            @ '' lines)''
                     else newline @ area @ '': '' @ str_float e avg @ ''%'')
                    # concat file_lines)))"

definition create_coverage_report :: "env \<Rightarrow> coverage_data \<Rightarrow> rat \<Rightarrow> py_error + xml" where
  "create_coverage_report e coverage_data coverage_threshold =
     (case group_files cov_line_counts coverage_data of
        Inl err \<Rightarrow> Inl err
      | Inr policy_groups \<Rightarrow>
          (let overall_coverage = round_percentage (cd_coverage coverage_data);
               total_lines = cd_covered_lines coverage_data + cd_not_covered_lines coverage_data;
               overall_meets_threshold = (overall_coverage \<ge> coverage_threshold)
           in case map_err
                     (\<lambda>area. cov_policy_lines e coverage_data coverage_threshold area
                        (cov_group_at policy_groups area))
                     (sort (map fst policy_groups)) of
                Inl err \<Rightarrow> Inl err
              | Inr policy_lines \<Rightarrow>
                  (let output_lines =
                         [''Coverage Report: '' @ str_float e overall_coverage @ ''% (''
                            @ str_int (cd_covered_lines coverage_data) @ ''/'' @ str_int total_lines
                            @ '' lines)'',
                          ''Threshold: '' @ str_float e coverage_threshold @ ''%'',
                          replicate 80 CHR ''='']
                         @ concat policy_lines;
                       overall_testcase =
                         Element ''testcase''
                           [(''name'', ''Overall Coverage: '' @ str_float e overall_coverage @ ''%''),
                            (''time'', ''0'')]
                           ''''
                           ((if \<not> overall_meets_threshold
                             then [Element ''failure''
                                     [(''message'', ''Overall coverage ''
                                         @ str_float e overall_coverage @ ''% is below ''
                                         @ str_float e coverage_threshold @ ''% threshold''),
                                      (''type'', ''CoverageThreshold'')] '''' []]
                             else [])
                            @ [Element ''system-out'' [] (join newline output_lines) []]);
                       coverage_suite =
                         Element ''testsuite''
                           [(''name'', ''Coverage''), (''package'', ''coverage''),
                            (''timestamp'', now_iso e), (''hostname'', hostname e),
                            (''tests'', ''1''),
                            (''failures'', if overall_meets_threshold then ''0'' else ''1''),
                            (''errors'', ''0''), (''skipped'', ''0''), (''time'', ''0'')]
                           ''''
                           [coverage_properties e coverage_data coverage_threshold,
                            overall_testcase]
                   in Inr (Element ''testsuites''
                             [(''name'', ''OPA Coverage Report''), (''timestamp'', now_iso e),
                              (''tests'', ''1''),
                              (''failures'', if overall_meets_threshold then ''0'' else ''1''),
                              (''errors'', ''0''), (''skipped'', ''0'')]
                             '''' [coverage_suite]))))"

subsection \<open>\<^verbatim>\<open>opa_combined_junit.py\<close>: \<^verbatim>\<open>create_coverage_summary_and_suites\<close>\<close>

text \<open>Lines 264-266:
  \<^verbatim>\<open>any(coverage_data["files"][f]["coverage"] < 100 for f in group["files"])\<close>, which
  stops at the first file below 100.\<close>

fun any_incomplete :: "coverage_data \<Rightarrow> string list \<Rightarrow> py_error + bool" where
  "any_incomplete coverage_data [] = Inr False"
| "any_incomplete coverage_data (f # fs) =
     (case file_coverage_of coverage_data f of
        Inl err \<Rightarrow> Inl err
      | Inr c \<Rightarrow> if c < 100 then Inr True else any_incomplete coverage_data fs)"

text \<open>Lines 333-342: the lines of the uncovered regions of one file.\<close>

definition comb_region_line :: "region \<Rightarrow> string" where
  "comb_region_line r = ''   - Lines '' @ row_str (r_start_row r) @ ''-'' @ row_str (r_end_row r)"

definition comb_region_lines :: "region list \<Rightarrow> string list" where
  "comb_region_lines regions =
     map comb_region_line (take 3 regions)
     @ (if length regions > 3
        then [''   - ... and '' @ str_nat (length regions - 3) @ '' more regions'']
        else [])"

text \<open>Lines 310-344: the lines of one file.\<close>

definition comb_file_lines :: "env \<Rightarrow> coverage_data \<Rightarrow> string \<Rightarrow> py_error + string list" where
  "comb_file_lines e coverage_data file_path =
     (case files_get coverage_data file_path of
        Inl err \<Rightarrow> Inl err
      | Inr file_data \<Rightarrow>
          (case fd_coverage file_data of
             None \<Rightarrow> Inl KeyError
           | Some c \<Rightarrow>
               (let file_coverage = round_percentage c;
                    filename = last (split CHR ''/'' file_path);
                    status = (if file_coverage = 100 then comb_mark_pass else comb_mark_fail)
                in case comb_line_counts file_data of
                     Some (covered, not_covered) \<Rightarrow>
                       Inr ((status @ '' '' @ filename @ '': '' @ str_float e file_coverage
                              @ ''% ('' @ str_int covered @ ''/'' @ str_int (covered + not_covered)
                              @ '' lines)'')
                            # (case fd_not_covered file_data of
                                 Some regions \<Rightarrow>
                                   (if file_coverage < 100 \<and> regions \<noteq> []
                                    then ''   Uncovered regions:'' # comb_region_lines regions
                                    else [])
                               | None \<Rightarrow> []))
                   | None \<Rightarrow>
                       Inr [status @ '' '' @ filename @ '': '' @ str_float e file_coverage
                              @ ''%''])))"

text \<open>Lines 272-295: the name of the test case of one policy area.\<close>

definition coverage_testcase_name ::
  "env \<Rightarrow> coverage_data \<Rightarrow> string \<Rightarrow> cov_group \<Rightarrow> rat \<Rightarrow> py_error + string" where
  "coverage_testcase_name e coverage_data area g avg =
     (if cg_total_lines g > 0
      then Inr (area @ '': '' @ str_float e avg @ ''% ('' @ str_int (cg_covered_lines g) @ ''/''
                  @ str_int (cg_total_lines g) @ '' lines)'')
      else (case cg_files g of
              first_file # _ \<Rightarrow>
                (case files_get coverage_data first_file of
                   Inl err \<Rightarrow> Inl err
                 | Inr file_data \<Rightarrow>
                     (case comb_line_counts file_data of
                        Some (file_covered, file_not_covered) \<Rightarrow>
                          Inr (area @ '': '' @ str_float e avg @ ''% ('' @ str_int file_covered
                                 @ ''/'' @ str_int (file_covered + file_not_covered) @ '' lines)'')
                      | None \<Rightarrow> Inr (area @ '': '' @ str_float e avg @ ''%'')))
            | [] \<Rightarrow> Inr (area @ '': '' @ str_float e avg @ ''%'')))"

text \<open>Lines 255-346: the test case of one policy area.\<close>

definition coverage_testcase ::
  "env \<Rightarrow> coverage_data \<Rightarrow> string \<Rightarrow> cov_group \<Rightarrow> py_error + xml" where
  "coverage_testcase e coverage_data area g =
     (case avg_coverage g of
        Inl err \<Rightarrow> Inl err
      | Inr avg \<Rightarrow>
          (case any_incomplete coverage_data (cg_files g) of
             Inl err \<Rightarrow> Inl err
           | Inr has_incomplete_coverage \<Rightarrow>
               (case coverage_testcase_name e coverage_data area g avg of
                  Inl err \<Rightarrow> Inl err
                | Inr name \<Rightarrow>
                    (case map_err (comb_file_lines e coverage_data) (sort (cg_files g)) of
                       Inl err \<Rightarrow> Inl err
                     | Inr file_details \<Rightarrow>
                         Inr (Element ''testcase'' [(''name'', name)] ''''
                                ((if has_incomplete_coverage
                                  then [Element ''failure''
                                          [(''message'', ''One or more files in '' @ area
                                              @ '' have coverage below 100%''),
                                           (''type'', ''CoverageThreshold'')] '''' []]
                                  else [])
                                 @ [Element ''system-out'' []
                                      (join newline (concat file_details)) []]))))))"

definition create_coverage_summary_and_suites ::
  "env \<Rightarrow> coverage_data \<Rightarrow> rat \<Rightarrow> py_error + xml list" where
  "create_coverage_summary_and_suites e coverage_data coverage_threshold =
     (case group_files comb_line_counts coverage_data of
        Inl err \<Rightarrow> Inl err
      | Inr policy_groups \<Rightarrow>
          (let overall_coverage = round_percentage (cd_coverage coverage_data);
               total_lines = cd_covered_lines coverage_data + cd_not_covered_lines coverage_data
           in case map_err
                     (\<lambda>area. coverage_testcase e coverage_data area
                        (cov_group_at policy_groups area))
                     (sort (map fst policy_groups)) of
                Inl err \<Rightarrow> Inl err
              | Inr testcases \<Rightarrow>
                  Inr [Element ''testsuite''
                         [(''name'', ''Coverage: '' @ str_float e overall_coverage @ ''% (''
                             @ str_int (cd_covered_lines coverage_data) @ ''/''
                             @ str_int total_lines @ '' lines)''),
                          (''package'', ''coverage''), (''timestamp'', now_iso e),
                          (''hostname'', hostname e)]
                         ''''
                         (coverage_properties e coverage_data coverage_threshold # testcases)]))"

subsection \<open>\<^verbatim>\<open>opa_combined_junit.py\<close>: \<^verbatim>\<open>create_combined_report\<close> and \<^verbatim>\<open>main\<close>\<close>


section \<open>The Cobertura report: \<^verbatim>\<open>opa_coverage_to_cobertura.py\<close>\<close>

text \<open>\<^verbatim>\<open>d.get(k, 0)\<close> and \<^verbatim>\<open>d.get(k, [])\<close>.\<close>

definition get_int :: "int option \<Rightarrow> int" where
  "get_int v = (case v of None \<Rightarrow> 0 | Some n \<Rightarrow> n)"

definition get_regions :: "region list option \<Rightarrow> region list" where
  "get_regions v = (case v of None \<Rightarrow> [] | Some rs \<Rightarrow> rs)"

text \<open>The \<^verbatim>\<open>_round_percentage\<close> of this script: a line rate with 4 decimals.\<close>

definition cobertura_round_percentage :: "rat \<Rightarrow> rat" where
  "cobertura_round_percentage v = py_round (v / 100) 4"

record policy_metrics =
  pm_covered_lines :: int
  pm_not_covered_lines :: int
  pm_total_lines :: int
  pm_coverage :: rat

text \<open>\<^verbatim>\<open>calculate_policy_only_coverage\<close> (lines 25-53); the accumulator is
  (\<^verbatim>\<open>policy_covered\<close>, \<^verbatim>\<open>policy_uncovered\<close>).\<close>

definition add_policy_lines :: "string \<times> file_data \<Rightarrow> int \<times> int \<Rightarrow> int \<times> int" where
  "add_policy_lines item acc =
     (case (item, acc) of
        ((file_path, file_data), (policy_covered, policy_uncovered)) \<Rightarrow>
          if is_test_file file_path then (policy_covered, policy_uncovered)
          else (policy_covered + get_int (fd_covered_lines file_data),
                policy_uncovered + get_int (fd_not_covered_lines file_data)))"

definition calculate_policy_only_coverage :: "coverage_data \<Rightarrow> policy_metrics" where
  "calculate_policy_only_coverage coverage_data =
     (case fold add_policy_lines (cd_files coverage_data) (0, 0) of
        (policy_covered, policy_uncovered) \<Rightarrow>
          (let total_policy_lines = policy_covered + policy_uncovered
           in \<lparr>pm_covered_lines = policy_covered,
               pm_not_covered_lines = policy_uncovered,
               pm_total_lines = total_policy_lines,
               pm_coverage = (if total_policy_lines > 0
                              then (of_int policy_covered / of_int total_policy_lines) * 100
                              else 0)\<rparr>))"

text \<open>A value of \<^verbatim>\<open>package_map\<close> and the loop that fills it (lines 88-116).\<close>

record package_data =
  pk_files :: "(string \<times> file_data) list"
  pk_line_rate :: rat
  pk_covered_lines :: int
  pk_total_lines :: int

definition new_package :: package_data where
  "new_package = \<lparr>pk_files = [], pk_line_rate = 0, pk_covered_lines = 0, pk_total_lines = 0\<rparr>"

definition package_name :: "string \<Rightarrow> string" where
  "package_name file_path =
     (let parts = split CHR ''/'' file_path
      in if length parts > 1 then join ''.'' (butlast parts) else ''default'')"

definition add_package_file ::
  "string \<times> file_data \<Rightarrow> (string \<times> package_data) list \<Rightarrow> (string \<times> package_data) list" where
  "add_package_file item package_map =
     (case item of
        (file_path, file_data) \<Rightarrow>
          if is_test_file file_path then package_map
          else upd_default new_package (package_name file_path)
                 (\<lambda>p. p\<lparr>pk_files := pk_files p @ [(file_path, file_data)],
                         pk_covered_lines :=
                           pk_covered_lines p + get_int (fd_covered_lines file_data),
                         pk_total_lines :=
                           pk_total_lines p + (get_int (fd_covered_lines file_data)
                             + get_int (fd_not_covered_lines file_data))\<rparr>)
                 package_map)"

definition build_package_map :: "coverage_data \<Rightarrow> (string \<times> package_data) list" where
  "build_package_map coverage_data = fold add_package_file (cd_files coverage_data) []"

text \<open>
  Lines 163-177: the dict \<^verbatim>\<open>line_coverage\<close> of one file. Every line of a covered region is
  set to \<open>True\<close>, then every line of a not-covered region to \<open>False\<close>;
  \<^verbatim>\<open>range(start_line, end_line + 1)\<close> is \<open>[start_line..end_line]\<close>.
\<close>

definition mark_region :: "bool \<Rightarrow> region \<Rightarrow> (int \<times> bool) list \<Rightarrow> py_error + (int \<times> bool) list"
  where
  "mark_region hit r line_coverage =
     (case r_start_row r of
        None \<Rightarrow> Inl KeyError
      | Some start_line \<Rightarrow>
          (case r_end_row r of
             None \<Rightarrow> Inl KeyError
           | Some end_line \<Rightarrow>
               Inr (fold (\<lambda>line_num. AList.update line_num hit) [start_line..end_line]
                      line_coverage)))"

fun mark_regions ::
  "bool \<Rightarrow> region list \<Rightarrow> (int \<times> bool) list \<Rightarrow> py_error + (int \<times> bool) list" where
  "mark_regions hit [] line_coverage = Inr line_coverage"
| "mark_regions hit (r # rs) line_coverage =
     (case mark_region hit r line_coverage of
        Inl err \<Rightarrow> Inl err
      | Inr line_coverage' \<Rightarrow> mark_regions hit rs line_coverage')"

definition line_coverage_of :: "file_data \<Rightarrow> py_error + (int \<times> bool) list" where
  "line_coverage_of file_data =
     (case mark_regions True (get_regions (fd_covered file_data)) [] of
        Inl err \<Rightarrow> Inl err
      | Inr line_coverage \<Rightarrow>
          mark_regions False (get_regions (fd_not_covered file_data)) line_coverage)"

text \<open>Lines 180-184: one \<^verbatim>\<open>line\<close> element per key of \<^verbatim>\<open>line_coverage\<close>, in ascending
  order.\<close>

definition line_element :: "(int \<times> bool) list \<Rightarrow> int \<Rightarrow> xml" where
  "line_element line_coverage line_num =
     Element ''line''
       [(''number'', str_int line_num),
        (''hits'', if map_of line_coverage line_num = Some True then ''1'' else ''0''),
        (''branch'', ''false'')] '''' []"

definition line_elements :: "file_data \<Rightarrow> py_error + xml list" where
  "line_elements file_data =
     (case line_coverage_of file_data of
        Inl err \<Rightarrow> Inl err
      | Inr line_coverage \<Rightarrow>
          Inr (map (line_element line_coverage) (sort (map fst line_coverage))))"

text \<open>Lines 138-184: the \<^verbatim>\<open>class\<close> element of one file; \<^verbatim>\<open>os.path.basename\<close> is the part
  after the last \<^verbatim>\<open>/\<close>.\<close>

definition class_element :: "env \<Rightarrow> string \<times> file_data \<Rightarrow> py_error + xml" where
  "class_element e item =
     (case item of
        (file_path, file_data) \<Rightarrow>
          (case fd_coverage file_data of
             None \<Rightarrow> Inl KeyError
           | Some c \<Rightarrow>
               (case line_elements file_data of
                  Inl err \<Rightarrow> Inl err
                | Inr lines \<Rightarrow>
                    (let filename = last (split CHR ''/'' file_path);
                         classname = replace filename ''.rego'' ''''
                     in Inr (Element ''class''
                               [(''name'', classname), (''filename'', file_path),
                                (''line-rate'', str_float e (cobertura_round_percentage c)),
                                (''branch-rate'', ''0''), (''complexity'', ''0'')]
                               ''''
                               [Element ''methods'' [] ''''
                                  [Element ''method''
                                     [(''name'', ''evaluate''), (''signature'', ''''),
                                      (''line-rate'',
                                         str_float e (cobertura_round_percentage c)),
                                      (''branch-rate'', ''0'')] '''' []],
                                Element ''lines'' [] '''' lines])))))"

text \<open>Lines 119-184: the \<^verbatim>\<open>package\<close> element of one directory.\<close>

definition package_element :: "env \<Rightarrow> string \<times> package_data \<Rightarrow> py_error + xml" where
  "package_element e item =
     (case item of
        (name, package_data) \<Rightarrow>
          (let package_line_rate =
                 (if pk_total_lines package_data > 0
                  then of_int (pk_covered_lines package_data)
                       / of_int (pk_total_lines package_data)
                  else 0)
           in case map_err (class_element e) (pk_files package_data) of
                Inl err \<Rightarrow> Inl err
              | Inr classes \<Rightarrow>
                  Inr (Element ''package''
                         [(''name'', name),
                          (''line-rate'', str_float e (py_round package_line_rate 4)),
                          (''branch-rate'', ''0''), (''complexity'', ''0'')]
                         '''' [Element ''classes'' [] '''' classes])))"

definition create_cobertura_report ::
  "env \<Rightarrow> coverage_data \<Rightarrow> string \<Rightarrow> py_error + xml \<times> policy_metrics" where
  "create_cobertura_report e coverage_data policy_directory =
     (let policy_metrics = calculate_policy_only_coverage coverage_data;
          total_lines = pm_total_lines policy_metrics;
          line_rate = cobertura_round_percentage (pm_coverage policy_metrics);
          package_map = build_package_map coverage_data
      in case map_err (package_element e) (sort_key fst package_map) of
           Inl err \<Rightarrow> Inl err
         | Inr packages \<Rightarrow>
             Inr (Element ''coverage''
                    [(''line-rate'', str_float e line_rate), (''branch-rate'', ''0''),
                     (''lines-covered'', str_int (pm_covered_lines policy_metrics)),
                     (''lines-valid'', str_int total_lines), (''branches-covered'', ''0''),
                     (''branches-valid'', ''0''), (''complexity'', ''0''), (''version'', ''0.1''),
                     (''timestamp'', str_int (now_timestamp e))]
                    ''''
                    [Element ''sources'' [] ''''
                       [Element ''source'' [] (abspath e policy_directory) []],
                     Element ''packages'' [] '''' packages],
                  policy_metrics))"

section \<open>The four programs and their exit status\<close>






section \<open>Notions used to state the properties\<close>

text \<open>
  The coverage of a file as the scripts read it, with 0 where the read raises; a path whose
  record and coverage can be read; a coverage input all of whose file records carry a
  coverage.
\<close>

definition coverage_or_zero :: "coverage_data \<Rightarrow> string \<Rightarrow> rat" where
  "coverage_or_zero cd f = (case file_coverage_of cd f of Inl err \<Rightarrow> 0 | Inr c \<Rightarrow> c)"

definition readable :: "coverage_data \<Rightarrow> string \<Rightarrow> bool" where
  "readable cd f \<longleftrightarrow> (\<exists>c. file_coverage_of cd f = Inr c)"

definition well_formed_files :: "coverage_data \<Rightarrow> bool" where
  "well_formed_files cd \<longleftrightarrow> (\<forall>(p, d) \<in> set (cd_files cd). fd_coverage d \<noteq> None)"

text \<open>A coverage input without its test-support files.\<close>

definition drop_test_files :: "coverage_data \<Rightarrow> coverage_data" where
  "drop_test_files cd = cd\<lparr>cd_files := filter (\<lambda>item. \<not> is_test_file (fst item)) (cd_files cd)\<rparr>"


text \<open>An environment and inputs for the examples below; this float rendering shows the
  integer part only.\<close>

definition example_env :: env where
  "example_env = \<lparr>now_iso = ''2024-01-01T00:00:00'', now_timestamp = 1704067200,
     hostname = ''localhost'', abspath = (\<lambda>d. CHR ''/'' # d),
     str_float = (\<lambda>x. str_int \<lfloor>x\<rfloor>)\<rparr>"


definition example_file :: file_data where
  "example_file = \<lparr>fd_coverage = Some 80, fd_covered_lines = Some 40,
     fd_not_covered_lines = Some 10,
     fd_covered = Some [\<lparr>r_start_row = Some 1, r_end_row = Some 4\<rparr>],
     fd_not_covered = Some [\<lparr>r_start_row = Some 3, r_end_row = Some 5\<rparr>,
                            \<lparr>r_start_row = Some 7, r_end_row = Some 7\<rparr>,
                            \<lparr>r_start_row = Some 9, r_end_row = Some 10\<rparr>,
                            \<lparr>r_start_row = Some 12, r_end_row = Some 12\<rparr>]\<rparr>"

definition example_test_file :: file_data where
  "example_test_file = \<lparr>fd_coverage = Some 50, fd_covered_lines = Some 5,
     fd_not_covered_lines = Some 5, fd_covered = None, fd_not_covered = None\<rparr>"

definition example_coverage :: coverage_data where
  "example_coverage = \<lparr>cd_coverage = 75, cd_covered_lines = 45, cd_not_covered_lines = 15,
     cd_files = [(''policy/foo/bar.rego'', example_file),
                 (''policy/foo/bar_test.rego'', example_test_file)]\<rparr>"






text \<open>The two conditions of the normalisation, on a whole name: a leading \<^verbatim>\<open>data\<close>
  segment followed by another segment, and a final segment that ends with \<^verbatim>\<open>_test\<close>.
  \<open>weight\<close> is the length of the dot-joined segments.\<close>

definition has_data_root :: "string \<Rightarrow> bool" where
  "has_data_root p \<longleftrightarrow> (case split CHR ''.'' p of a # b # ps \<Rightarrow> a = ''data'' | _ \<Rightarrow> False)"

definition has_test_suffix :: "string \<Rightarrow> bool" where
  "has_test_suffix p \<longleftrightarrow> endswith (last (split CHR ''.'' p)) ''_test''"

definition weight :: "string list \<Rightarrow> nat" where
  "weight ps = sum_list (map length ps) + (length ps - 1)"

section \<open>Properties of the test grouping\<close>

lemma sum_groups_upd:
  assumes "f dflt = 0" and "\<And>g. f (h g) = f g + c"
  shows "sum_groups f (upd_default dflt k h d) = sum_groups f d + c"
  using assms
  by (induction d) (auto simp: sum_groups_def upd_default_def add.assoc add.commute add.left_commute)

lemma sum_groups_group_tests_from:
  assumes "f new_test_group = 0" and "\<And>t g. f (add_test t g) = f g + c t"
  shows "sum_groups f (group_tests_from gs ts) = sum_groups f gs + sum_list (map c ts)"
  using assms
proof (induction ts arbitrary: gs)
  case Nil
  then show ?case by simp
next
  case (Cons t ts)
  have "sum_groups f (upd_default new_test_group (policy_name (t_package t)) (add_test t) gs)
        = sum_groups f gs + c t"
    by (rule sum_groups_upd) (simp_all add: Cons.prems)
  with Cons show ?case by (simp add: add.assoc)
qed

lemma count_filter: "sum_list (map (\<lambda>t. if P t then (1::nat) else 0) ts) = length (filter P ts)"
  by (induction ts) auto

text \<open>
  C2. Grouping the test records by policy name drops and duplicates nothing: summed over all
  groups, the number of tests, failures, errors and skipped tests are the length of the flat
  list and the number of its records with a truthy \<^verbatim>\<open>fail\<close>, \<^verbatim>\<open>error\<close> and \<^verbatim>\<open>skip\<close>
  field. (The grouping loop is the same in \<^verbatim>\<open>opa_test_to_junit.py\<close> and
  \<^verbatim>\<open>opa_combined_junit.py\<close>; the claim holds for the empty list too.)
\<close>

theorem group_totals:
  "sum_groups (\<lambda>g. length (tg_tests g)) (group_tests test_data) = length test_data
   \<and> sum_groups tg_failures (group_tests test_data) = length (filter is_fail test_data)
   \<and> sum_groups tg_errors (group_tests test_data) = length (filter is_error test_data)
   \<and> sum_groups tg_skipped (group_tests test_data) = length (filter is_skip test_data)"
proof -
  have a: "sum_groups (\<lambda>g. length (tg_tests g)) (group_tests test_data)
      = sum_list (map (\<lambda>t. 1) test_data)"
    unfolding group_tests_def
    using sum_groups_group_tests_from[where c="\<lambda>t. 1" and f="\<lambda>g. length (tg_tests g)" and gs="[]" and ts=test_data]
    by (simp add: new_test_group_def add_test_def sum_groups_def)
  have b: "sum_groups tg_failures (group_tests test_data)
      = sum_list (map (\<lambda>t. if is_fail t then 1 else 0) test_data)"
    unfolding group_tests_def
    using sum_groups_group_tests_from[where c="\<lambda>t. if is_fail t then 1 else 0" and f=tg_failures and gs="[]" and ts=test_data]
    by (simp add: new_test_group_def add_test_def sum_groups_def)
  have c: "sum_groups tg_errors (group_tests test_data)
      = sum_list (map (\<lambda>t. if is_error t then 1 else 0) test_data)"
    unfolding group_tests_def
    using sum_groups_group_tests_from[where c="\<lambda>t. if is_error t then 1 else 0" and f=tg_errors and gs="[]" and ts=test_data]
    by (simp add: new_test_group_def add_test_def sum_groups_def)
  have d: "sum_groups tg_skipped (group_tests test_data)
      = sum_list (map (\<lambda>t. if is_skip t then 1 else 0) test_data)"
    unfolding group_tests_def
    using sum_groups_group_tests_from[where c="\<lambda>t. if is_skip t then 1 else 0" and f=tg_skipped and gs="[]" and ts=test_data]
    by (simp add: new_test_group_def add_test_def sum_groups_def)
  have e: "sum_list (map (\<lambda>t. 1::nat) test_data) = length test_data"
    by (induction test_data) auto
  show ?thesis
    using a b c d e by (simp add: count_filter sum_groups_def)
qed


lemma split_nonempty [simp]: "split c s \<noteq> []"
  by (induction s) (auto split: list.splits)

lemma join_split: "join [c] (split c s) = s"
proof (induction s)
  case Nil
  then show ?case by simp
next
  case (Cons x xs)
  obtain w ws where ws: "split c xs = w # ws"
    by (cases "split c xs") (use split_nonempty[of c xs] in auto)
  with Cons show ?case by (cases ws) auto
qed

lemma length_join:
  "length (join sep ps) = sum_list (map length ps) + (length ps - 1) * length sep"
  by (induction sep ps rule: join.induct) auto

subsection \<open>Policy names\<close>

lemma split_append_sep: "c \<notin> set w \<Longrightarrow> split c (w @ c # s) = w # split c s"
  by (induction w) auto

lemma split_append_nosep:
  "c \<notin> set t \<Longrightarrow> split c (s @ t) = butlast (split c s) @ [last (split c s) @ t]"
proof (induction s)
  case Nil
  then show ?case by (induction t) (auto split: list.splits)
next
  case (Cons x xs)
  obtain w ws where ws: "split c xs = w # ws"
    by (cases "split c xs") (use split_nonempty[of c xs] in auto)
  from Cons show ?case
    by (auto simp: ws split: list.splits)
qed

lemma policy_name_root: "policy_name (''data.'' @ s) = join ''.'' (strip_test (split CHR ''.'' s))"
proof -
  have "split CHR ''.'' (''data'' @ CHR ''.'' # s) = ''data'' # split CHR ''.'' s"
    by (rule split_append_sep) simp
  moreover obtain w ws where "split CHR ''.'' s = w # ws"
    by (cases "split CHR ''.'' s") (use split_nonempty[of "CHR ''.''" s] in auto)
  ultimately show ?thesis
    by (simp add: policy_name_def)
qed

lemma strip_data_nonempty: "ps \<noteq> [] \<Longrightarrow> strip_data ps \<noteq> []"
  by (cases ps rule: strip_data.cases) auto

lemma strip_data_last_eq: "last (strip_data ps) = last ps"
  by (cases ps rule: strip_data.cases) auto

lemma endswith_append [simp]: "endswith (s @ t) t"
  by (simp add: endswith_def)

lemma strip_test_snoc: "strip_test (ps @ [l @ ''_test'']) = ps @ [l]"
  by (simp add: strip_test_def)

lemma strip_data_snoc:
  "ps \<noteq> [] \<Longrightarrow> strip_data (butlast ps @ [last ps @ t]) = butlast (strip_data ps) @ [last (strip_data ps) @ t]"
proof (cases ps rule: strip_data.cases)
  case (1 p q qs)
  then show ?thesis by (cases qs) auto
qed auto

lemma policy_name_suffix: "policy_name (s @ ''_test'') = join ''.'' (strip_data (split CHR ''.'' s))"
proof -
  let ?ps = "split CHR ''.'' s"
  have ne: "?ps \<noteq> []" by simp
  have "split CHR ''.'' (s @ ''_test'') = butlast ?ps @ [last ?ps @ ''_test'']"
    by (rule split_append_nosep) simp
  then have "strip_data (split CHR ''.'' (s @ ''_test''))
      = butlast (strip_data ?ps) @ [last (strip_data ?ps) @ ''_test'']"
    using strip_data_snoc[OF ne] by simp
  then have "strip_test (strip_data (split CHR ''.'' (s @ ''_test'')))
      = butlast (strip_data ?ps) @ [last (strip_data ?ps)]"
    by (simp only: strip_test_snoc)
  also have "\<dots> = strip_data ?ps"
    using strip_data_nonempty[OF ne] by simp
  finally show ?thesis by (simp add: policy_name_def)
qed

lemma length_join_dot: "length (join ''.'' ps) = weight ps"
  by (simp add: length_join weight_def)

lemma weight_strip_data: "weight (strip_data ps) \<le> weight ps"
  by (cases ps rule: strip_data.cases) (auto simp: weight_def)

lemma weight_strip_data_less:
  "ps = a # b # qs \<Longrightarrow> a = ''data'' \<Longrightarrow> weight (strip_data ps) < weight ps"
  by (auto simp: weight_def)

lemma weight_snoc: "weight (ps @ [l]) = sum_list (map length ps) + length l + length ps"
  by (simp add: weight_def)

lemma weight_strip_test: "weight (strip_test ps) \<le> weight ps"
proof (cases "ps \<noteq> [] \<and> endswith (last ps) ''_test''")
  case True
  then have "weight (butlast ps @ [last ps]) = weight ps" by simp
  then show ?thesis using True
    by (simp add: strip_test_def weight_snoc del: append_butlast_last_id)
next
  case False
  then show ?thesis by (auto simp: strip_test_def)
qed

lemma weight_strip_test_less:
  assumes "ps \<noteq> []" "endswith (last ps) ''_test''"
  shows "weight (strip_test ps) < weight ps"
proof -
  have "weight (butlast ps @ [last ps]) = weight ps" using assms by simp
  moreover have "5 \<le> length (last ps)" using assms by (simp add: endswith_def)
  ultimately show ?thesis using assms
    by (simp add: strip_test_def weight_snoc del: append_butlast_last_id)
qed

lemma policy_name_fixed:
  "policy_name p = p \<longleftrightarrow> \<not> has_data_root p \<and> \<not> has_test_suffix p"
proof
  let ?ps = "split CHR ''.'' p"
  have lp: "length p = weight ?ps"
    using length_join_dot[of ?ps] by (simp add: join_split)
  assume fp: "policy_name p = p"
  have len: "weight (strip_test (strip_data ?ps)) = weight ?ps"
    using fp lp length_join_dot[of "strip_test (strip_data ?ps)"] by (simp add: policy_name_def)
  have "\<not> has_data_root p"
  proof
    assume "has_data_root p"
    then obtain a b qs where "?ps = a # b # qs" "a = ''data''"
      by (auto simp: has_data_root_def split: list.splits)
    then have "weight (strip_data ?ps) < weight ?ps" by (rule weight_strip_data_less)
    with weight_strip_test[of "strip_data ?ps"] len show False by simp
  qed
  moreover have "\<not> has_test_suffix p"
  proof
    assume "has_test_suffix p"
    then have "endswith (last (strip_data ?ps)) ''_test''"
      by (simp add: has_test_suffix_def strip_data_last_eq)
    then have "weight (strip_test (strip_data ?ps)) < weight (strip_data ?ps)"
      by (intro weight_strip_test_less strip_data_nonempty) simp_all
    with weight_strip_data[of ?ps] len show False by simp
  qed
  ultimately show "\<not> has_data_root p \<and> \<not> has_test_suffix p" ..
next
  let ?ps = "split CHR ''.'' p"
  assume h: "\<not> has_data_root p \<and> \<not> has_test_suffix p"
  then have "strip_data ?ps = ?ps"
    by (cases ?ps rule: strip_data.cases) (auto simp: has_data_root_def)
  moreover have "strip_test ?ps = ?ps"
    using h by (simp add: strip_test_def has_test_suffix_def)
  ultimately show "policy_name p = p"
    by (simp add: policy_name_def join_split)
qed

text \<open>
  C3 (as amended). The normalisation removes exactly one leading \<^verbatim>\<open>data\<close> segment (when
  another segment follows it) and exactly one trailing \<^verbatim>\<open>_test\<close> marker of the final
  segment: after \<^verbatim>\<open>data.\<close> is removed only the suffix step applies to the rest, and after
  \<^verbatim>\<open>_test\<close> is removed only the root step. A name is a fixed point exactly when it has
  neither, so normalising twice equals normalising once exactly when the first result has
  neither.
\<close>

theorem policy_name_strips_once:
  "policy_name (''data.'' @ s) = join ''.'' (strip_test (split CHR ''.'' s))
   \<and> policy_name (s @ ''_test'') = join ''.'' (strip_data (split CHR ''.'' s))
   \<and> (policy_name p = p \<longleftrightarrow> \<not> has_data_root p \<and> \<not> has_test_suffix p)
   \<and> (policy_name (policy_name p) = policy_name p \<longleftrightarrow>
        \<not> has_data_root (policy_name p) \<and> \<not> has_test_suffix (policy_name p))"
  using policy_name_root policy_name_suffix policy_name_fixed by blast

theorem policy_name_strips_once_witness:
  "policy_name ''data.policy.foo'' = ''policy.foo''
   \<and> policy_name ''policy.foo_test'' = ''policy.foo''
   \<and> policy_name (policy_name ''data.policy.foo_test'') = policy_name ''data.policy.foo_test''"
  using policy_name_strips_once [where s = "''policy.foo''" and p = "''data.policy.foo_test''"]
  by (simp add: strip_test_def endswith_def has_data_root_def has_test_suffix_def policy_name_def)

text \<open>
  C3 as stated fails: \<^verbatim>\<open>data.foo\<close> is in the image of the normalisation (it is the
  policy name of \<^verbatim>\<open>data.data.foo\<close>), and normalising it again gives \<^verbatim>\<open>foo\<close>.
\<close>

theorem policy_name_not_idempotent:
  "policy_name (policy_name ''data.data.foo'') \<noteq> policy_name ''data.data.foo''"
  by (simp add: policy_name_def strip_test_def endswith_def)

section \<open>Properties of the coverage grouping\<close>

lemma cov_group_at_upd:
  "cov_group_at (upd_default new_cov_group k f gs) a =
     (if a = k then f (cov_group_at gs k) else cov_group_at gs a)"
  by (simp add: cov_group_at_def upd_default_def update_conv')

lemma keys_upd_default: "fst ` set (upd_default dflt k f gs) = insert k (fst ` set gs)"
  by (simp add: upd_default_def dom_update)

lemma distinct_upd_default:
  "distinct (map fst gs) \<Longrightarrow> distinct (map fst (upd_default dflt k f gs))"
  by (simp add: upd_default_def distinct_update)

lemma group_files_from_char:
  assumes "group_files_from lc cd gs fs = Inr gs'"
  shows "cg_files (cov_group_at gs' a) = cg_files (cov_group_at gs a) @ filter (\<lambda>f. policy_area f = a) fs
    \<and> cg_file_count (cov_group_at gs' a) = cg_file_count (cov_group_at gs a) + length (filter (\<lambda>f. policy_area f = a) fs)
    \<and> cg_total_coverage (cov_group_at gs' a) = cg_total_coverage (cov_group_at gs a)
         + sum_list (map (coverage_or_zero cd) (filter (\<lambda>f. policy_area f = a) fs))
    \<and> fst ` set gs' = fst ` set gs \<union> policy_area ` set fs
    \<and> (distinct (map fst gs) \<longrightarrow> distinct (map fst gs'))
    \<and> (\<forall>f \<in> set fs. \<exists>c. file_coverage_of cd f = Inr c)"
  using assms
proof (induction fs arbitrary: gs)
  case Nil
  then show ?case by simp
next
  case (Cons f fs)
  from Cons.prems obtain d c where d: "files_get cd f = Inr d" and c: "fd_coverage d = Some c"
    and rest: "group_files_from lc cd
        (upd_default new_cov_group (policy_area f) (add_file lc f d c) gs) fs = Inr gs'"
    by (auto split: sum.splits option.splits)
  have fc: "file_coverage_of cd f = Inr c" by (simp add: file_coverage_of_def d c)
  have af: "cg_files (add_file lc f d c g) = cg_files g @ [f]"
       "cg_file_count (add_file lc f d c g) = cg_file_count g + 1"
       "cg_total_coverage (add_file lc f d c g) = cg_total_coverage g + c" for g
    by (auto simp: add_file_def Let_def split: option.splits)
  note ih = Cons.IH[OF rest]
  show ?case
    using ih fc
    by (auto simp: cov_group_at_upd af keys_upd_default distinct_upd_default coverage_or_zero_def)
qed


lemma map_err_total:
  "(\<And>x. x \<in> set xs \<Longrightarrow> \<exists>y. f x = Inr y) \<Longrightarrow> \<exists>ys. map_err f xs = Inr ys"
proof (induction xs)
  case Nil
  then show ?case by simp
next
  case (Cons x xs)
  then obtain y where "f x = Inr y" by force
  moreover from Cons obtain ys where "map_err f xs = Inr ys" by force
  ultimately show ?case by simp
qed

lemma group_files_from_total:
  "(\<And>f. f \<in> set fs \<Longrightarrow> readable cd f) \<Longrightarrow> \<exists>gs'. group_files_from lc cd gs fs = Inr gs'"
proof (induction fs arbitrary: gs)
  case Nil
  then show ?case by simp
next
  case (Cons f fs)
  from Cons.prems[of f] obtain c where "file_coverage_of cd f = Inr c"
    by (auto simp: readable_def)
  then obtain d where "files_get cd f = Inr d" "fd_coverage d = Some c"
    by (auto simp: file_coverage_of_def split: sum.splits option.splits)
  with Cons show ?case by simp
qed

lemma well_formed_readable:
  assumes "well_formed_files cd" "f \<in> set (policy_files cd)"
  shows "readable cd f"
proof -
  from assms(2) have "f \<in> fst ` set (cd_files cd)" by (auto simp: policy_files_def)
  then obtain d where d: "map_of (cd_files cd) f = Some d"
    by (metis domD dom_map_of_conv_image_fst)
  then have "(f, d) \<in> set (cd_files cd)" by (rule map_of_SomeD)
  with assms(1) obtain c where "fd_coverage d = Some c"
    by (auto simp: well_formed_files_def)
  with d show ?thesis
    by (simp add: readable_def file_coverage_of_def files_get_def)
qed

lemma group_files_total:
  "well_formed_files cd \<Longrightarrow> \<exists>gs. group_files lc cd = Inr gs"
  unfolding group_files_def
  by (rule group_files_from_total) (rule well_formed_readable)

lemma group_files_member:
  assumes "group_files lc cd = Inr gs" and "(a, g) \<in> set gs"
  shows "cov_group_at gs a = g"
    and "cg_files g = filter (\<lambda>f. policy_area f = a) (policy_files cd)"
    and "cg_file_count g = length (cg_files g)"
    and "cg_total_coverage g = sum_list (map (coverage_or_zero cd) (cg_files g))"
    and "cg_files g \<noteq> []"
    and "\<forall>f \<in> set (cg_files g). readable cd f"
proof -
  note ch = group_files_from_char[OF assms(1)[unfolded group_files_def], of a]
  from ch have "distinct (map fst gs)" by simp
  with assms(2) have "map_of gs a = Some g" by simp
  then show g: "cov_group_at gs a = g" by (simp add: cov_group_at_def)
  from ch g show f: "cg_files g = filter (\<lambda>f. policy_area f = a) (policy_files cd)"
    by (simp add: cov_group_at_def new_cov_group_def)
  from ch g f show "cg_file_count g = length (cg_files g)"
    by (simp add: cov_group_at_def new_cov_group_def)
  from ch g f show "cg_total_coverage g = sum_list (map (coverage_or_zero cd) (cg_files g))"
    by (simp add: cov_group_at_def new_cov_group_def)
  from assms(2) have "a \<in> fst ` set gs" by force
  with ch have "a \<in> policy_area ` set (policy_files cd)" by simp
  with f show "cg_files g \<noteq> []" by (auto simp: filter_empty_conv)
  from ch f show "\<forall>f \<in> set (cg_files g). readable cd f"
    by (auto simp: readable_def)
qed

lemma avg_coverage_ok:
  assumes "group_files lc cd = Inr gs" and "(a, g) \<in> set gs"
  shows "1 \<le> cg_file_count g"
    and "avg_coverage g = Inr (round_percentage (cg_total_coverage g / of_nat (cg_file_count g)))"
proof -
  from group_files_member(3,5)[OF assms] show "1 \<le> cg_file_count g"
    by (cases "cg_files g") auto
  then show "avg_coverage g = Inr (round_percentage (cg_total_coverage g / of_nat (cg_file_count g)))"
    by (simp add: avg_coverage_def)
qed

lemma cov_file_lines_total:
  "readable cd f \<Longrightarrow> \<exists>ls. cov_file_lines e cd th f = Inr ls"
  by (auto simp: readable_def file_coverage_of_def cov_file_lines_def Let_def
      split: sum.splits option.splits prod.splits)

lemma comb_file_lines_total:
  "readable cd f \<Longrightarrow> \<exists>ls. comb_file_lines e cd f = Inr ls"
  by (auto simp: readable_def file_coverage_of_def comb_file_lines_def Let_def
      split: sum.splits option.splits prod.splits)

lemma any_incomplete_total:
  "(\<And>f. f \<in> set fs \<Longrightarrow> readable cd f) \<Longrightarrow> \<exists>b. any_incomplete cd fs = Inr b"
proof (induction fs)
  case Nil
  show ?case by (rule exI[of _ False]) simp
next
  case (Cons f fs)
  from Cons.prems[of f] obtain c where c: "file_coverage_of cd f = Inr c"
    by (auto simp: readable_def)
  from Cons obtain b where "any_incomplete cd fs = Inr b" by force
  with c show ?case by (cases "c < 100") auto
qed

lemma coverage_testcase_name_total:
  "(\<And>f. f \<in> set (cg_files g) \<Longrightarrow> readable cd f) \<Longrightarrow>
   \<exists>n. coverage_testcase_name e cd a g avg = Inr n"
proof (cases "cg_files g")
  case Nil
  then show ?thesis by (simp add: coverage_testcase_name_def)
next
  case (Cons f fs)
  assume "\<And>f. f \<in> set (cg_files g) \<Longrightarrow> readable cd f"
  from this[of f] Cons obtain d where "files_get cd f = Inr d"
    by (auto simp: readable_def file_coverage_of_def split: sum.splits)
  with Cons show ?thesis
    by (auto simp: coverage_testcase_name_def split: option.splits prod.splits)
qed

lemma cov_policy_lines_total:
  assumes "group_files lc cd = Inr gs" and "(a, g) \<in> set gs"
  shows "\<exists>ls. cov_policy_lines e cd th a g = Inr ls"
proof -
  from group_files_member(6)[OF assms]
  have "\<exists>fl. map_err (cov_file_lines e cd th) (sort (cg_files g)) = Inr fl"
    by (intro map_err_total cov_file_lines_total) simp
  then show ?thesis
    by (auto simp: cov_policy_lines_def avg_coverage_ok(2)[OF assms])
qed

lemma coverage_testcase_total:
  assumes "group_files lc cd = Inr gs" and "(a, g) \<in> set gs"
  shows "\<exists>tc. coverage_testcase e cd a g = Inr tc"
proof -
  note r = group_files_member(6)[OF assms]
  have "\<exists>fl. map_err (comb_file_lines e cd) (sort (cg_files g)) = Inr fl"
    using r by (intro map_err_total comb_file_lines_total) simp
  then obtain fl where fl: "map_err (comb_file_lines e cd) (sort (cg_files g)) = Inr fl" ..
  have "\<exists>b. any_incomplete cd (cg_files g) = Inr b"
    using r by (intro any_incomplete_total) simp
  then obtain b where b: "any_incomplete cd (cg_files g) = Inr b" ..
  have "\<exists>n. coverage_testcase_name e cd a g avg = Inr n" for avg
    using r by (intro coverage_testcase_name_total) simp
  then obtain n where n: "coverage_testcase_name e cd a g
      (round_percentage (cg_total_coverage g / of_nat (cg_file_count g))) = Inr n" by blast
  show ?thesis
    by (simp add: coverage_testcase_def avg_coverage_ok(2)[OF assms] fl b n)
qed

lemma sorted_keys_member:
  assumes "group_files lc cd = Inr gs" and "a \<in> set (sort (map fst gs))"
  shows "(a, cov_group_at gs a) \<in> set gs"
proof -
  from assms(2) obtain g where "(a, g) \<in> set gs" by auto
  with group_files_member(1)[OF assms(1) this] show ?thesis by simp
qed

lemma create_coverage_report_total:
  assumes "well_formed_files cd"
  shows "\<exists>doc. create_coverage_report e cd th = Inr doc"
proof -
  from group_files_total[OF assms] obtain gs where gs: "group_files cov_line_counts cd = Inr gs"
    by blast
  have "\<exists>pls. map_err (\<lambda>area. cov_policy_lines e cd th area (cov_group_at gs area))
      (sort (map fst gs)) = Inr pls"
    by (intro map_err_total cov_policy_lines_total[OF gs] sorted_keys_member[OF gs])
  then show ?thesis
    by (auto simp: create_coverage_report_def gs Let_def)
qed

lemma create_coverage_summary_and_suites_total:
  assumes "well_formed_files cd"
  shows "\<exists>suites. create_coverage_summary_and_suites e cd th = Inr suites"
proof -
  from group_files_total[OF assms] obtain gs where gs: "group_files comb_line_counts cd = Inr gs"
    by blast
  have "\<exists>tcs. map_err (\<lambda>area. coverage_testcase e cd area (cov_group_at gs area))
      (sort (map fst gs)) = Inr tcs"
    by (intro map_err_total coverage_testcase_total[OF gs] sorted_keys_member[OF gs])
  then show ?thesis
    by (auto simp: create_coverage_summary_and_suites_def gs Let_def)
qed

section \<open>The Cobertura builder returns on readable input\<close>








section \<open>Exit status\<close>



lemma example_well_formed: "well_formed_files example_coverage"
  by (simp add: well_formed_files_def example_coverage_def example_file_def example_test_file_def)






section \<open>The coverage builders return\<close>

lemma example_groups:
  "group_files cov_line_counts example_coverage =
     Inr [(''foo'', \<lparr>cg_files = [''policy/foo/bar.rego''], cg_total_coverage = 80,
                      cg_file_count = 1, cg_total_lines = 50, cg_covered_lines = 40,
                      cg_not_covered_lines = 10\<rparr>)]"
  by code_simp

text \<open>
  C10. A coverage group exists only because a file was added to it: every group of the
  grouping loop has a non-empty file list and a file count of at least 1, so the average
  is computed without a division by zero. On a coverage input all of whose file records
  carry a coverage, both JUnit coverage builders return a document.
\<close>

theorem coverage_builders_total:
  "(group_files line_counts cd = Inr policy_groups \<longrightarrow> (area, g) \<in> set policy_groups \<longrightarrow>
      cg_files g \<noteq> [] \<and> 1 \<le> cg_file_count g \<and> (\<exists>avg. avg_coverage g = Inr avg))
   \<and> (well_formed_files cd \<longrightarrow>
        (\<exists>doc. create_coverage_report e cd th = Inr doc)
        \<and> (\<exists>suites. create_coverage_summary_and_suites e cd th = Inr suites))"
proof (intro conjI impI)
  assume gs: "group_files line_counts cd = Inr policy_groups" and g: "(area, g) \<in> set policy_groups"
  show "cg_files g \<noteq> []" by (rule group_files_member(5)[OF gs g])
  show "1 \<le> cg_file_count g" by (rule avg_coverage_ok(1)[OF gs g])
  show "\<exists>avg. avg_coverage g = Inr avg" using avg_coverage_ok(2)[OF gs g] by blast
next
  assume wf: "well_formed_files cd"
  show "\<exists>doc. create_coverage_report e cd th = Inr doc"
    by (rule create_coverage_report_total[OF wf])
  show "\<exists>suites. create_coverage_summary_and_suites e cd th = Inr suites"
    by (rule create_coverage_summary_and_suites_total[OF wf])
qed

theorem coverage_builders_total_witness:
  "well_formed_files example_coverage
   \<and> group_files cov_line_counts example_coverage =
       Inr [(''foo'', \<lparr>cg_files = [''policy/foo/bar.rego''], cg_total_coverage = 80,
                        cg_file_count = 1, cg_total_lines = 50, cg_covered_lines = 40,
                        cg_not_covered_lines = 10\<rparr>)]
   \<and> (\<exists>avg. avg_coverage \<lparr>cg_files = [''policy/foo/bar.rego''], cg_total_coverage = 80,
                        cg_file_count = 1, cg_total_lines = 50, cg_covered_lines = 40,
                        cg_not_covered_lines = 10\<rparr> = Inr avg)
   \<and> (\<exists>doc. create_coverage_report example_env example_coverage 90 = Inr doc)
   \<and> (\<exists>suites. create_coverage_summary_and_suites example_env example_coverage 90 = Inr suites)"
  using coverage_builders_total [where line_counts = cov_line_counts and cd = example_coverage
      and area = "''foo''" and e = example_env and th = 90,
      unfolded example_groups]
    example_well_formed example_groups
  by simp

section \<open>Failure marking of the coverage reports\<close>






lemma any_incomplete_iff:
  "any_incomplete cd fs = Inr b \<Longrightarrow>
   b \<longleftrightarrow> (\<exists>f \<in> set fs. \<exists>c. file_coverage_of cd f = Inr c \<and> c < 100)"
  by (induction fs) (auto split: sum.splits if_splits)

lemma coverage_testcase_failure:
  assumes "coverage_testcase e cd a g = Inr tc"
  shows "has_child ''failure'' tc \<longleftrightarrow>
         (\<exists>f \<in> set (cg_files g). \<exists>c. file_coverage_of cd f = Inr c \<and> c < 100)"
proof -
  from assms obtain b fl where b: "any_incomplete cd (cg_files g) = Inr b"
    and tc: "xchildren tc = 
       (if b then [Element ''failure''
                                          [(''message'', ''One or more files in '' @ a
                                              @ '' have coverage below 100%''),
                                           (''type'', ''CoverageThreshold'')] '''' []]
                                  else [])
                                 @ [Element ''system-out'' []
                                      (join newline (concat fl)) []]"
    by (auto simp: coverage_testcase_def split: sum.splits)
  from tc have "has_child ''failure'' tc \<longleftrightarrow> b" by (auto simp: has_child_def)
  with any_incomplete_iff[OF b] show ?thesis by simp
qed

lemma map_err_nth:
  "map_err f xs = Inr ys \<Longrightarrow>
   length ys = length xs \<and> (\<forall>i < length xs. f (xs ! i) = Inr (ys ! i))"
proof (induction xs arbitrary: ys)
  case Nil
  then show ?case by simp
next
  case (Cons x xs)
  then obtain y ys' where "f x = Inr y" "map_err f xs = Inr ys'" "ys = y # ys'"
    by (auto split: sum.splits)
  with Cons.IH[of ys'] show ?case by (auto simp: nth_Cons split: nat.splits)
qed

lemma policy_file_below:
  assumes "distinct (map fst (cd_files cd))"
  shows "(\<exists>f \<in> set (filter (\<lambda>f. policy_area f = a) (policy_files cd)).
            \<exists>c. file_coverage_of cd f = Inr c \<and> c < 100)
     \<longleftrightarrow> (\<exists>(p, d) \<in> set (cd_files cd). \<not> is_test_file p \<and> policy_area p = a
            \<and> (\<exists>c. fd_coverage d = Some c \<and> c < 100))"
proof
  assume "\<exists>f \<in> set (filter (\<lambda>f. policy_area f = a) (policy_files cd)).
            \<exists>c. file_coverage_of cd f = Inr c \<and> c < 100"
  then obtain f c where f: "f \<in> set (policy_files cd)" "policy_area f = a"
    and c: "file_coverage_of cd f = Inr c" "c < 100" by auto
  from c(1) obtain d where d: "map_of (cd_files cd) f = Some d" "fd_coverage d = Some c"
    by (auto simp: file_coverage_of_def files_get_def split: option.splits)
  from d(1) have "(f, d) \<in> set (cd_files cd)" by (rule map_of_SomeD)
  with f d c show "\<exists>(p, d) \<in> set (cd_files cd). \<not> is_test_file p \<and> policy_area p = a
            \<and> (\<exists>c. fd_coverage d = Some c \<and> c < 100)"
    by (auto simp: policy_files_def)
next
  assume "\<exists>(p, d) \<in> set (cd_files cd). \<not> is_test_file p \<and> policy_area p = a
            \<and> (\<exists>c. fd_coverage d = Some c \<and> c < 100)"
  then obtain p d c where pd: "(p, d) \<in> set (cd_files cd)" "\<not> is_test_file p" "policy_area p = a"
    "fd_coverage d = Some c" "c < 100" by auto
  from assms pd(1) have "map_of (cd_files cd) p = Some d" by simp
  with pd have "file_coverage_of cd p = Inr c" 
    by (simp add: file_coverage_of_def files_get_def)
  moreover from pd have "p \<in> set (filter (\<lambda>f. policy_area f = a) (policy_files cd))"
    by (force simp: policy_files_def)
  ultimately show "\<exists>f \<in> set (filter (\<lambda>f. policy_area f = a) (policy_files cd)).
            \<exists>c. file_coverage_of cd f = Inr c \<and> c < 100"
    using pd(5) by blast
qed

lemma group_keys:
  assumes "group_files lc cd = Inr gs"
  shows "sort (map fst gs) = sort (remdups (map policy_area (policy_files cd)))"
proof -
  note ch = group_files_from_char[OF assms[unfolded group_files_def], of undefined]
  from ch have d: "distinct (map fst gs)" and s: "fst ` set gs = policy_area ` set (policy_files cd)"
    by simp_all
  have "sorted (sort (map fst gs))" "distinct (sort (map fst gs))"
    "sorted (sort (remdups (map policy_area (policy_files cd))))"
    "distinct (sort (remdups (map policy_area (policy_files cd))))"
    using d by simp_all
  moreover have "set (sort (map fst gs)) = set (sort (remdups (map policy_area (policy_files cd))))"
    using s by simp
  ultimately show ?thesis by (metis sorted_distinct_set_unique)
qed

text \<open>
  C5. The coverage suite of the combined report has one test case per policy area, in
  ascending order of the area names. The test case of an area carries a \<^verbatim>\<open>failure\<close> child
  exactly when some file of the input that is not a test file and lies in that area has a
  coverage below 100; neither the average of the area nor the threshold takes part in it.
  (The paths of a \<^verbatim>\<open>files\<close> dict are distinct.)
\<close>

theorem combined_coverage_case_failure:
  assumes "create_coverage_summary_and_suites e cd th = Inr suites"
    and "distinct (map fst (cd_files cd))"
  shows "\<exists>suite properties testcases.
     suites = [suite] \<and> xchildren suite = properties # testcases
     \<and> length testcases = length (sort (remdups (map policy_area (policy_files cd))))
     \<and> (\<forall>i < length testcases.
          has_child ''failure'' (testcases ! i) \<longleftrightarrow>
            (\<exists>(p, d) \<in> set (cd_files cd).
               \<not> is_test_file p
               \<and> policy_area p = sort (remdups (map policy_area (policy_files cd))) ! i
               \<and> (\<exists>c. fd_coverage d = Some c \<and> c < 100)))"
proof -
  from assms(1) obtain gs tcs where gs: "group_files comb_line_counts cd = Inr gs"
    and tcs: "map_err (\<lambda>area. coverage_testcase e cd area (cov_group_at gs area))
                (sort (map fst gs)) = Inr tcs"
    and suites: "suites = [Element ''testsuite''
                         [(''name'', ''Coverage: '' @ str_float e (round_percentage (cd_coverage cd)) @ ''% (''
                             @ str_int (cd_covered_lines cd) @ ''/''
                             @ str_int (cd_covered_lines cd + cd_not_covered_lines cd) @ '' lines)''),
                          (''package'', ''coverage''), (''timestamp'', now_iso e),
                          (''hostname'', hostname e)]
                         ''''
                         (coverage_properties e cd th # tcs)]"
    by (auto simp: create_coverage_summary_and_suites_def Let_def split: sum.splits)
  let ?areas = "sort (remdups (map policy_area (policy_files cd)))"
  have areas: "sort (map fst gs) = ?areas" by (rule group_keys[OF gs])
  note nth = map_err_nth[OF tcs, unfolded areas]
  have "has_child ''failure'' (tcs ! i) \<longleftrightarrow>
            (\<exists>(p, d) \<in> set (cd_files cd). \<not> is_test_file p \<and> policy_area p = ?areas ! i
               \<and> (\<exists>c. fd_coverage d = Some c \<and> c < 100))" if i: "i < length tcs" for i
  proof -
    let ?a = "?areas ! i"
    from i nth have ia: "i < length ?areas" by simp
    with nth have tc: "coverage_testcase e cd ?a (cov_group_at gs ?a) = Inr (tcs ! i)" by simp
    from ia have "?a \<in> set (sort (map fst gs))" unfolding areas by (rule nth_mem)
    then have mem: "(?a, cov_group_at gs ?a) \<in> set gs" by (rule sorted_keys_member[OF gs])
    note f = group_files_member(2)[OF gs mem]
    show ?thesis
      unfolding coverage_testcase_failure[OF tc] f
      by (rule policy_file_below[OF assms(2)])
  qed
  with suites nth show ?thesis by simp
qed

theorem combined_coverage_case_failure_witness:
  "distinct (map fst (cd_files example_coverage))
   \<and> (\<exists>suite properties testcases.
         create_coverage_summary_and_suites example_env example_coverage 90 = Inr [suite]
         \<and> xchildren suite = properties # testcases \<and> length testcases = 1
         \<and> has_child ''failure'' (testcases ! 0))"
proof -
  obtain suites where
    1: "create_coverage_summary_and_suites example_env example_coverage 90 = Inr suites"
    using create_coverage_summary_and_suites_total[OF example_well_formed] by blast
  have dist: "distinct (map fst (cd_files example_coverage))" by code_simp
  have areas: "sort (remdups (map policy_area (policy_files example_coverage))) = [''foo'']"
    by code_simp
  have a: "\<not> is_test_file ''policy/foo/bar.rego''" by code_simp
  have b: "policy_area ''policy/foo/bar.rego'' = ''foo''" by code_simp
  have ex: "\<exists>(p, d) \<in> set (cd_files example_coverage).
      \<not> is_test_file p \<and> policy_area p = ''foo'' \<and> (\<exists>c. fd_coverage d = Some c \<and> c < 100)"
    by (rule bexI[of _ "(''policy/foo/bar.rego'', example_file)"])
       (simp_all add: a b example_coverage_def example_file_def)
  from combined_coverage_case_failure[OF 1 dist, unfolded areas]
  obtain suite properties testcases where s: "suites = [suite]"
    "xchildren suite = properties # testcases" "length testcases = length [''foo'']"
    and marks: "\<forall>i < length testcases. has_child ''failure'' (testcases ! i) \<longleftrightarrow>
      (\<exists>(p, d) \<in> set (cd_files example_coverage).
         \<not> is_test_file p \<and> policy_area p = [''foo''] ! i
         \<and> (\<exists>c. fd_coverage d = Some c \<and> c < 100))"
    by blast
  from s(3) have len: "length testcases = 1" by simp
  with marks have "has_child ''failure'' (testcases ! 0) \<longleftrightarrow>
      (\<exists>(p, d) \<in> set (cd_files example_coverage).
         \<not> is_test_file p \<and> policy_area p = [''foo''] ! 0
         \<and> (\<exists>c. fd_coverage d = Some c \<and> c < 100))"
    by simp
  with ex have "has_child ''failure'' (testcases ! 0)" by simp
  with 1 s(1,2) len dist show ?thesis by blast
qed

section \<open>Rendering of integers is injective\<close>








section \<open>Lines of the Cobertura report\<close>









section \<open>Test files\<close>

lemma policy_files_drop [simp]: "policy_files (drop_test_files cd) = policy_files cd"
  by (simp add: policy_files_def drop_test_files_def filter_map comp_def)

lemma map_of_filter_key:
  "P k \<Longrightarrow> map_of (filter (\<lambda>item. P (fst item)) xs) k = map_of xs k"
  by (induction xs) auto

lemma files_get_drop: "\<not> is_test_file f \<Longrightarrow> files_get (drop_test_files cd) f = files_get cd f"
  by (simp add: files_get_def drop_test_files_def
      map_of_filter_key[where P = "\<lambda>k. \<not> is_test_file k"])

lemma file_coverage_of_drop:
  "\<not> is_test_file f \<Longrightarrow> file_coverage_of (drop_test_files cd) f = file_coverage_of cd f"
  by (simp add: file_coverage_of_def files_get_drop)

lemma policy_files_not_test: "f \<in> set (policy_files cd) \<Longrightarrow> \<not> is_test_file f"
  by (simp add: policy_files_def)

lemma group_files_from_drop:
  "(\<And>f. f \<in> set fs \<Longrightarrow> \<not> is_test_file f) \<Longrightarrow>
   group_files_from lc (drop_test_files cd) gs fs = group_files_from lc cd gs fs"
  by (induction fs arbitrary: gs) (simp_all add: files_get_drop split: sum.splits option.splits)

lemma group_files_drop: "group_files lc (drop_test_files cd) = group_files lc cd"
  unfolding group_files_def policy_files_drop
  by (rule group_files_from_drop) (rule policy_files_not_test)

lemma fold_filter_id:
  "(\<And>x. x \<in> set xs \<Longrightarrow> \<not> P x \<Longrightarrow> f x = id) \<Longrightarrow> fold f (filter P xs) = fold f xs"
  by (induction xs) (auto simp: fun_eq_iff)

lemma calculate_drop:
  "calculate_policy_only_coverage (drop_test_files cd) = calculate_policy_only_coverage cd"
proof -
  have "fold add_policy_lines (filter (\<lambda>item. \<not> is_test_file (fst item)) (cd_files cd))
      = fold add_policy_lines (cd_files cd)"
    by (rule fold_filter_id) (auto simp: add_policy_lines_def fun_eq_iff)
  then show ?thesis
    by (simp add: calculate_policy_only_coverage_def drop_test_files_def)
qed

lemma package_map_drop: "build_package_map (drop_test_files cd) = build_package_map cd"
proof -
  have "fold add_package_file (filter (\<lambda>item. \<not> is_test_file (fst item)) (cd_files cd))
      = fold add_package_file (cd_files cd)"
    by (rule fold_filter_id) (auto simp: add_package_file_def fun_eq_iff)
  then show ?thesis
    by (simp add: build_package_map_def drop_test_files_def)
qed

lemma cobertura_drop:
  "create_cobertura_report e (drop_test_files cd) dir = create_cobertura_report e cd dir"
  by (simp add: create_cobertura_report_def calculate_drop package_map_drop)

lemma map_err_cong:
  "(\<And>x. x \<in> set xs \<Longrightarrow> f x = g x) \<Longrightarrow> map_err f xs = map_err g xs"
  by (induction xs) (simp_all cong: sum.case_cong)

lemma cov_file_lines_drop:
  "\<not> is_test_file f \<Longrightarrow>
   cov_file_lines e (drop_test_files cd) th f = cov_file_lines e cd th f"
  by (simp add: cov_file_lines_def files_get_drop)

lemma comb_file_lines_drop:
  "\<not> is_test_file f \<Longrightarrow> comb_file_lines e (drop_test_files cd) f = comb_file_lines e cd f"
  by (simp add: comb_file_lines_def files_get_drop)

lemma any_incomplete_drop:
  "(\<And>f. f \<in> set fs \<Longrightarrow> \<not> is_test_file f) \<Longrightarrow>
   any_incomplete (drop_test_files cd) fs = any_incomplete cd fs"
  by (induction fs) (simp_all add: file_coverage_of_drop cong: sum.case_cong if_cong)

lemma coverage_testcase_name_drop:
  "(\<And>f. f \<in> set (cg_files g) \<Longrightarrow> \<not> is_test_file f) \<Longrightarrow>
   coverage_testcase_name e (drop_test_files cd) a g avg = coverage_testcase_name e cd a g avg"
  by (cases "cg_files g") (simp_all add: coverage_testcase_name_def files_get_drop)

lemma group_files_not_test:
  assumes "group_files lc cd = Inr gs" and "a \<in> set (sort (map fst gs))"
    and "f \<in> set (cg_files (cov_group_at gs a))"
  shows "\<not> is_test_file f"
proof -
  from sorted_keys_member[OF assms(1,2)] have "(a, cov_group_at gs a) \<in> set gs" .
  from group_files_member(2)[OF assms(1) this] assms(3) show ?thesis
    by (auto dest: policy_files_not_test)
qed

lemma cov_policy_lines_drop:
  "(\<And>f. f \<in> set (cg_files g) \<Longrightarrow> \<not> is_test_file f) \<Longrightarrow>
   cov_policy_lines e (drop_test_files cd) th a g = cov_policy_lines e cd th a g"
proof -
  assume nt: "\<And>f. f \<in> set (cg_files g) \<Longrightarrow> \<not> is_test_file f"
  have "map_err (cov_file_lines e (drop_test_files cd) th) (sort (cg_files g))
      = map_err (cov_file_lines e cd th) (sort (cg_files g))"
    by (rule map_err_cong) (simp add: cov_file_lines_drop nt)
  then show ?thesis by (simp add: cov_policy_lines_def cong: sum.case_cong)
qed

lemma coverage_testcase_drop:
  "(\<And>f. f \<in> set (cg_files g) \<Longrightarrow> \<not> is_test_file f) \<Longrightarrow>
   coverage_testcase e (drop_test_files cd) a g = coverage_testcase e cd a g"
proof -
  assume nt: "\<And>f. f \<in> set (cg_files g) \<Longrightarrow> \<not> is_test_file f"
  have "map_err (comb_file_lines e (drop_test_files cd)) (sort (cg_files g))
      = map_err (comb_file_lines e cd) (sort (cg_files g))"
    by (rule map_err_cong) (simp add: comb_file_lines_drop nt)
  then show ?thesis
    by (simp add: coverage_testcase_def any_incomplete_drop[OF nt]
        coverage_testcase_name_drop[OF nt] cong: sum.case_cong)
qed

lemma drop_fields [simp]:
  "cd_coverage (drop_test_files cd) = cd_coverage cd"
  "cd_covered_lines (drop_test_files cd) = cd_covered_lines cd"
  "cd_not_covered_lines (drop_test_files cd) = cd_not_covered_lines cd"
  by (simp_all add: drop_test_files_def)

lemma coverage_properties_drop:
  "coverage_properties e (drop_test_files cd) th = coverage_properties e cd th"
  by (simp add: coverage_properties_def)

lemma create_coverage_report_drop:
  "create_coverage_report e (drop_test_files cd) th = create_coverage_report e cd th"
proof (cases "group_files cov_line_counts cd")
  case (Inl err)
  then show ?thesis by (simp add: create_coverage_report_def group_files_drop)
next
  case (Inr gs)
  have "map_err (\<lambda>area. cov_policy_lines e (drop_test_files cd) th area (cov_group_at gs area))
          (sort (map fst gs))
      = map_err (\<lambda>area. cov_policy_lines e cd th area (cov_group_at gs area)) (sort (map fst gs))"
    by (rule map_err_cong) (rule cov_policy_lines_drop, rule group_files_not_test[OF Inr])
  then show ?thesis
    by (simp add: create_coverage_report_def group_files_drop Inr coverage_properties_drop
        cong: sum.case_cong)
qed

lemma create_coverage_summary_drop:
  "create_coverage_summary_and_suites e (drop_test_files cd) th =
   create_coverage_summary_and_suites e cd th"
proof (cases "group_files comb_line_counts cd")
  case (Inl err)
  then show ?thesis by (simp add: create_coverage_summary_and_suites_def group_files_drop)
next
  case (Inr gs)
  have "map_err (\<lambda>area. coverage_testcase e (drop_test_files cd) area (cov_group_at gs area))
          (sort (map fst gs))
      = map_err (\<lambda>area. coverage_testcase e cd area (cov_group_at gs area)) (sort (map fst gs))"
    by (rule map_err_cong) (rule coverage_testcase_drop, rule group_files_not_test[OF Inr])
  then show ?thesis
    by (simp add: create_coverage_summary_and_suites_def group_files_drop Inr
        coverage_properties_drop cong: sum.case_cong)
qed

text \<open>
  C7. A file whose path ends with \<^verbatim>\<open>_test.rego\<close> contributes nothing to what the programs
  compute from the \<^verbatim>\<open>files\<close> mapping: removing all such files from the input changes
  neither the policy-only metrics of the Cobertura script (covered lines, total lines,
  overall percentage), nor its package map, nor its report, nor the policy-area groups of
  the JUnit scripts, nor their reports. (The overall figures of the JUnit reports are the
  top-level fields of the input, which the scripts read and do not compute.)
\<close>

theorem test_files_contribute_nothing:
  "calculate_policy_only_coverage (drop_test_files cd) = calculate_policy_only_coverage cd
   \<and> build_package_map (drop_test_files cd) = build_package_map cd
   \<and> create_cobertura_report e (drop_test_files cd) dir = create_cobertura_report e cd dir
   \<and> group_files line_counts (drop_test_files cd) = group_files line_counts cd
   \<and> create_coverage_report e (drop_test_files cd) th = create_coverage_report e cd th
   \<and> create_coverage_summary_and_suites e (drop_test_files cd) th =
       create_coverage_summary_and_suites e cd th"
  by (simp add: calculate_drop package_map_drop cobertura_drop group_files_drop
      create_coverage_report_drop create_coverage_summary_drop)

theorem test_files_contribute_nothing_witness:
  "is_test_file ''policy/foo/bar_test.rego''
   \<and> cd_files (drop_test_files example_coverage) = [(''policy/foo/bar.rego'', example_file)]
   \<and> calculate_policy_only_coverage example_coverage =
       \<lparr>pm_covered_lines = 40, pm_not_covered_lines = 10, pm_total_lines = 50, pm_coverage = 80\<rparr>"
proof -
  have a: "is_test_file ''policy/foo/bar_test.rego''" by code_simp
  have b: "cd_files (drop_test_files example_coverage) = [(''policy/foo/bar.rego'', example_file)]"
    by code_simp
  have c: "calculate_policy_only_coverage (drop_test_files example_coverage) =
       \<lparr>pm_covered_lines = 40, pm_not_covered_lines = 10, pm_total_lines = 50, pm_coverage = 80\<rparr>"
    by code_simp
  from test_files_contribute_nothing [where cd = example_coverage] a b c
  show ?thesis by simp
qed

section \<open>Average coverage of a group\<close>






section \<open>Uncovered regions in the file details\<close>





end
